theory Spec2Isabelle
  imports Complex_Main
begin

section \<open>Python values\<close>

text \<open>
  Events and vendor frames are Python dictionaries with string keys holding arbitrary
  JSON-like values (\<open>dict[str, Any]\<close>). A dictionary is an association list, read with
  \<open>get\<close> (Python's \<open>d.get(k)\<close>, which yields \<open>None\<close> for a missing key).
  Python floats are modelled as reals: the arithmetic is exact, \<open>float(...)\<close> of an
  integer never overflows, and NaN and the infinities are outside the model.
\<close>

datatype pyval =
    PNone
  | PBool bool
  | PInt int
  | PFloat real
  | PStr string
  | PList "pyval list"
  | PDict "(string \<times> pyval) list"

type_synonym dict = "(string \<times> pyval) list"

datatype py_error = TypeError | ValueError string

definition get :: "dict \<Rightarrow> string \<Rightarrow> pyval" where
  "get d k = (case map_of d k of None \<Rightarrow> PNone | Some v \<Rightarrow> v)"

text \<open>\<open>isinstance(v, int)\<close>: in Python \<open>bool\<close> is a subclass of \<open>int\<close>.\<close>

fun is_int :: "pyval \<Rightarrow> bool" where
  "is_int (PInt n) = True"
| "is_int (PBool b) = True"
| "is_int v = False"

text \<open>\<open>isinstance(v, (int, float))\<close>.\<close>

fun is_number :: "pyval \<Rightarrow> bool" where
  "is_number (PInt n) = True"
| "is_number (PBool b) = True"
| "is_number (PFloat r) = True"
| "is_number v = False"

text \<open>The numeric value of an \<open>int\<close> instance (\<open>True\<close> is 1, \<open>False\<close> is 0).\<close>

fun int_val :: "pyval \<Rightarrow> int" where
  "int_val (PInt n) = n"
| "int_val (PBool b) = (if b then 1 else 0)"
| "int_val v = 0"

text \<open>\<open>float(v)\<close> on a number.\<close>

fun float_of :: "pyval \<Rightarrow> real" where
  "float_of (PInt n) = of_int n"
| "float_of (PBool b) = (if b then 1 else 0)"
| "float_of (PFloat r) = r"
| "float_of v = 0"

text \<open>\<open>isinstance(v, str) and v\<close>: the non-empty string carried by \<open>v\<close>, if any.\<close>

fun nonempty_str :: "pyval \<Rightarrow> string option" where
  "nonempty_str (PStr s) = (if s = [] then None else Some s)"
| "nonempty_str v = None"

text \<open>Lists and dictionaries are unhashable: testing them for set membership raises.\<close>

fun hashable :: "pyval \<Rightarrow> bool" where
  "hashable (PList xs) = False"
| "hashable (PDict d) = False"
| "hashable v = True"

text \<open>Decimal rendering of an integer, as an f-string prints it.\<close>

fun str_nat :: "nat \<Rightarrow> string" where
  "str_nat n = (if n < 10 then [''0123456789'' ! n]
                else str_nat (n div 10) @ [''0123456789'' ! (n mod 10)])"

declare str_nat.simps [simp del]

definition str_int :: "int \<Rightarrow> string" where
  "str_int i = (if i < 0 then CHR ''-'' # str_nat (nat (- i)) else str_nat (nat i))"

text \<open>\<open>f"{index}"\<close> for an \<open>int\<close> instance: a \<open>bool\<close> prints as \<open>True\<close> or \<open>False\<close>.\<close>

fun format_index :: "pyval \<Rightarrow> string" where
  "format_index (PBool b) = (if b then ''True'' else ''False'')"
| "format_index v = str_int (int_val v)"

section \<open>The provider registry (registry.py)\<close>

text \<open>
  \<open>_PROVIDERS\<close> is a module-level dictionary from API identifiers to providers. Each
  operation takes the registry and returns its outcome together with the registry
  afterwards, so that a raise shows the state it leaves behind.
\<close>

type_synonym 'p registry = "string \<rightharpoonup> 'p"

definition register_api_provider ::
  "string \<Rightarrow> 'p \<Rightarrow> 'p registry \<Rightarrow> (py_error + unit) \<times> 'p registry" where
  "register_api_provider api provider providers =
     (if api \<in> dom providers
      then (Inl (ValueError (''Provider already registered for api: '' @ api)), providers)
      else (Inr (), providers(api \<mapsto> provider)))"

definition get_api_provider :: "'p registry \<Rightarrow> string \<Rightarrow> 'p option" where
  "get_api_provider providers api = providers api"

definition clear_registry_for_tests :: "'p registry \<Rightarrow> 'p registry" where
  "clear_registry_for_tests providers = Map.empty"

text \<open>A sequence of registration calls, each one run whatever the outcome of the others.\<close>

fun register_all :: "(string \<times> 'p) list \<Rightarrow> 'p registry \<Rightarrow> 'p registry" where
  "register_all [] providers = providers"
| "register_all ((api, provider) # calls) providers =
     register_all calls (snd (register_api_provider api provider providers))"

section \<open>The assembler (event_stream.py)\<close>

record usage_cost =
  cost_input :: real
  cost_output :: real
  cost_cache_read :: real
  cost_cache_write :: real
  cost_total :: real

text \<open>
  The five counters hold whatever \<open>int\<close> instance an event supplied (a \<open>bool\<close> is one),
  so they are Python values; the cost fields always hold the result of \<open>float(...)\<close>.
\<close>

record usage =
  u_input :: pyval
  u_output :: pyval
  u_cache_read :: pyval
  u_cache_write :: pyval
  u_total_tokens :: pyval
  u_cost :: usage_cost

definition zero_usage :: usage where
  "zero_usage =
     \<lparr>u_input = PInt 0, u_output = PInt 0, u_cache_read = PInt 0, u_cache_write = PInt 0,
      u_total_tokens = PInt 0,
      u_cost = \<lparr>cost_input = 0, cost_output = 0, cost_cache_read = 0, cost_cache_write = 0,
              cost_total = 0\<rparr>\<rparr>"

record model =
  api :: string
  provider :: string
  model :: string

datatype block =
    TextContent string
  | ToolCallContent (tc_id: string) (tc_name: string) (tc_arguments: dict)

text \<open>
  The usage dictionary is created once by \<open>__init__\<close> and then mutated in place, and the
  assembled message stores a reference to that same dictionary (\<open>"usage": self._usage\<close>).
  The store maps addresses to usage objects; the stream and the message both hold an
  address. All other objects a message refers to are built afresh by \<open>_assemble_final\<close>
  or are immutable strings, so they are plain values.
\<close>

type_synonym addr = nat

type_synonym heap = "addr \<Rightarrow> usage"

record message =
  m_role :: string
  m_content :: "block list"
  m_api :: string
  m_provider :: string
  m_model :: string
  m_usage :: addr
  m_stop_reason :: string
  m_timestamp :: int
  m_error_message :: "string option"

text \<open>One accumulator of \<open>self._tool_calls\<close>: \<open>{"id": "", "name": "", "arguments_json": ""}\<close>.\<close>

record call =
  call_id :: string
  call_name :: string
  arguments_json :: string

text \<open>
  \<open>self._tool_calls\<close> is a dictionary keyed by the index objects, in insertion order.
  Keys are compared by numeric value (\<open>True == 1\<close>), and the key object first inserted
  is the one the dictionary keeps.
\<close>

type_synonym tool_calls = "(pyval \<times> call) list"

record stream =
  s_model :: model
  s_text :: string
  s_tool_calls :: tool_calls
  s_usage :: addr
  s_final :: "message option"
  s_stop_reason :: "string option"
  s_error_message :: "string option"

text \<open>
  Library functions the assembler calls and the repository does not define:
  \<open>json.loads\<close>, which returns the value of a valid document and raises
  \<open>JSONDecodeError\<close> on an invalid one (\<open>None\<close> here), and \<open>str\<close> on a value that
  is not already a string. Running out of stack or memory is outside the model.
\<close>

record lib =
  json_loads :: "string \<Rightarrow> pyval option"
  str_other :: "pyval \<Rightarrow> string"

definition py_str :: "lib \<Rightarrow> pyval \<Rightarrow> string" where
  "py_str L v = (case v of PStr s \<Rightarrow> s | _ \<Rightarrow> str_other L v)"

text \<open>\<open>__init__\<close>, given the address at which the new usage dictionary is allocated.\<close>

definition init :: "model \<Rightarrow> addr \<Rightarrow> heap \<Rightarrow> heap \<times> stream" where
  "init mdl a h =
     (h(a := zero_usage),
      \<lparr>s_model = mdl, s_text = [], s_tool_calls = [], s_usage = a, s_final = None,
       s_stop_reason = None, s_error_message = None\<rparr>)"

subsection \<open>Tool-call accumulators\<close>

fun find_call :: "tool_calls \<Rightarrow> int \<Rightarrow> (pyval \<times> call) option" where
  "find_call [] i = None"
| "find_call ((k, c) # tcs) i = (if int_val k = i then Some (k, c) else find_call tcs i)"

fun update_call :: "int \<Rightarrow> (call \<Rightarrow> call) \<Rightarrow> tool_calls \<Rightarrow> tool_calls" where
  "update_call i f [] = []"
| "update_call i f ((k, c) # tcs) =
     (if int_val k = i then (k, f c) # tcs else (k, c) # update_call i f tcs)"

definition new_call :: call where
  "new_call = \<lparr>call_id = [], call_name = [], arguments_json = []\<rparr>"

text \<open>Lines 80 to 88: the three fields of one delta, applied to its accumulator.\<close>

definition apply_delta :: "dict \<Rightarrow> call \<Rightarrow> call" where
  "apply_delta event c =
     (let c1 = (case nonempty_str (get event ''id'') of
                  Some tool_call_id \<Rightarrow> c\<lparr>call_id := tool_call_id\<rparr> | None \<Rightarrow> c);
          c2 = (case nonempty_str (get event ''name'') of
                  Some name \<Rightarrow> c1\<lparr>call_name := name\<rparr> | None \<Rightarrow> c1)
      in (case nonempty_str (get event ''arguments_delta'') of
            Some args_delta \<Rightarrow> c2\<lparr>arguments_json := arguments_json c2 @ args_delta\<rparr>
          | None \<Rightarrow> c2))"

text \<open>Lines 75 to 88, for an event whose index is an \<open>int\<close> instance.\<close>

definition toolcall_delta :: "dict \<Rightarrow> tool_calls \<Rightarrow> tool_calls" where
  "toolcall_delta event tcs =
     (let index = get event ''index'';
          tcs1 = (case find_call tcs (int_val index) of
                    None \<Rightarrow> tcs @ [(index, new_call)]
                  | Some kc \<Rightarrow> tcs)
      in update_call (int_val index) (apply_delta event) tcs1)"

subsection \<open>The usage accumulator\<close>

definition counter_keys :: "string list" where
  "counter_keys = [''input'', ''output'', ''cache_read'', ''cache_write'', ''total_tokens'']"

definition cost_keys :: "string list" where
  "cost_keys = [''input'', ''output'', ''cache_read'', ''cache_write'', ''total'']"

text \<open>\<open>self._usage[k] = v\<close> and \<open>self._usage[k]\<close> for a counter key.\<close>

definition set_counter :: "string \<Rightarrow> pyval \<Rightarrow> usage \<Rightarrow> usage" where
  "set_counter k v u =
     (if k = ''input'' then u\<lparr>u_input := v\<rparr>
      else if k = ''output'' then u\<lparr>u_output := v\<rparr>
      else if k = ''cache_read'' then u\<lparr>u_cache_read := v\<rparr>
      else if k = ''cache_write'' then u\<lparr>u_cache_write := v\<rparr>
      else if k = ''total_tokens'' then u\<lparr>u_total_tokens := v\<rparr>
      else u)"


text \<open>\<open>self._usage["cost"][ck] = x\<close> and \<open>self._usage["cost"][ck]\<close> for a cost key.\<close>

definition set_cost :: "string \<Rightarrow> real \<Rightarrow> usage_cost \<Rightarrow> usage_cost" where
  "set_cost ck x c =
     (if ck = ''input'' then c\<lparr>cost_input := x\<rparr>
      else if ck = ''output'' then c\<lparr>cost_output := x\<rparr>
      else if ck = ''cache_read'' then c\<lparr>cost_cache_read := x\<rparr>
      else if ck = ''cache_write'' then c\<lparr>cost_cache_write := x\<rparr>
      else if ck = ''total'' then c\<lparr>cost_total := x\<rparr>
      else c)"


text \<open>Lines 100 to 109: the body of each loop, then the two loops.\<close>

definition merge_counter :: "dict \<Rightarrow> string \<Rightarrow> usage \<Rightarrow> usage" where
  "merge_counter usg k u = (let v = get usg k in if is_int v then set_counter k v u else u)"

definition merge_cost :: "dict \<Rightarrow> string \<Rightarrow> usage_cost \<Rightarrow> usage_cost" where
  "merge_cost cst ck c =
     (let cv = get cst ck in if is_number cv then set_cost ck (float_of cv) c else c)"

definition merge_usage :: "dict \<Rightarrow> usage \<Rightarrow> usage" where
  "merge_usage usg u =
     (let u1 = fold (merge_counter usg) counter_keys u
      in (case get usg ''cost'' of
            PDict cst \<Rightarrow> u1\<lparr>u_cost := fold (merge_cost cst) cost_keys (u_cost u1)\<rparr>
          | _ \<Rightarrow> u1))"

subsection \<open>Finalization\<close>

text \<open>
  The characters \<open>str.strip()\<close> removes, among the ASCII ones; \<open>blank s\<close> says that
  \<open>s.strip()\<close> is empty.
\<close>

definition whitespace :: "char list" where
  "whitespace = [CHR 0x09, CHR 0x0A, CHR 0x0B, CHR 0x0C, CHR 0x0D,
                 CHR 0x1C, CHR 0x1D, CHR 0x1E, CHR 0x1F, CHR 0x20]"

definition blank :: "string \<Rightarrow> bool" where
  "blank s = list_all (\<lambda>c. c \<in> set whitespace) s"

text \<open>Lines 141 to 158: the block built for one index and its accumulator.\<close>

definition toolcall_block :: "lib \<Rightarrow> pyval \<Rightarrow> call \<Rightarrow> block" where
  "toolcall_block L index c =
     (let args_json = arguments_json c;
          args_obj = (if blank args_json then []
                      else (case json_loads L args_json of
                              Some (PDict parsed) \<Rightarrow> parsed
                            | _ \<Rightarrow> []))
      in ToolCallContent
           (if call_id c \<noteq> [] then call_id c else ''toolcall:'' @ format_index index)
           (if call_name c \<noteq> [] then call_name c else ''unknown'')
           args_obj)"

text \<open>
  \<open>for index in sorted(self._tool_calls.keys()): call = self._tool_calls[index]\<close>
  visits the entries of the dictionary in ascending order of their keys.
\<close>

definition sorted_calls :: "tool_calls \<Rightarrow> tool_calls" where
  "sorted_calls tcs = sort_key (\<lambda>kc. int_val (fst kc)) tcs"

definition assemble_final :: "lib \<Rightarrow> int \<Rightarrow> stream \<Rightarrow> message" where
  "assemble_final L now s =
     (let stop_reason = (case s_stop_reason s of
                           None \<Rightarrow> ''stop''
                         | Some r \<Rightarrow> if r = [] then ''stop'' else r);
          content = (if s_text s \<noteq> [] then [TextContent (s_text s)] else []);
          content1 = (if s_tool_calls s \<noteq> []
                      then content @ map (\<lambda>kc. toolcall_block L (fst kc) (snd kc))
                                         (sorted_calls (s_tool_calls s))
                      else content);
          stop_reason1 = (if s_tool_calls s \<noteq> [] \<and> stop_reason = ''stop''
                          then ''tool_use'' else stop_reason)
      in \<lparr>m_role = ''assistant'', m_content = content1,
          m_api = api (s_model s), m_provider = provider (s_model s),
          m_model = model (s_model s), m_usage = s_usage s,
          m_stop_reason = stop_reason1, m_timestamp = now,
          m_error_message = (case s_error_message s of
                               None \<Rightarrow> None
                             | Some e \<Rightarrow> if e \<noteq> [] then Some e else None)\<rparr>)"

subsection \<open>One step of iteration\<close>

definition stop_reasons :: "string list" where
  "stop_reasons = [''stop'', ''length'', ''tool_use'', ''error'', ''aborted'']"

text \<open>
  \<open>__anext__\<close> on the event the underlying iterator delivers, at clock reading \<open>now\<close>
  (what \<open>_now_ms()\<close> returns if it is called). It gives the outcome (the event returned,
  or the exception raised) and the store and stream afterwards. The one raise is the
  set-membership test of line 91 on an unhashable reason.
\<close>

definition anext ::
  "lib \<Rightarrow> int \<Rightarrow> dict \<Rightarrow> heap \<times> stream \<Rightarrow> (py_error + dict) \<times> (heap \<times> stream)" where
  "anext L now event hs =
     (let h = fst hs; s = snd hs; ty = get event ''type'' in
      if ty = PStr ''text_delta'' then
        (case get event ''delta'' of
           PStr delta \<Rightarrow> (Inr event, (h, s\<lparr>s_text := s_text s @ delta\<rparr>))
         | _ \<Rightarrow> (Inr event, (h, s)))
      else if ty = PStr ''toolcall_delta'' then
        (if \<not> is_int (get event ''index'') then (Inr event, (h, s))
         else (Inr event, (h, s\<lparr>s_tool_calls := toolcall_delta event (s_tool_calls s)\<rparr>)))
      else if ty = PStr ''done'' then
        (let reason = get event ''reason'' in
         if \<not> hashable reason then (Inl TypeError, (h, s))
         else
           (let s1 = s\<lparr>s_stop_reason :=
                        Some (case reason of
                                PStr r \<Rightarrow> if r \<in> set stop_reasons then r else ''stop''
                              | _ \<Rightarrow> ''stop'')\<rparr>
            in (Inr event, (h, s1\<lparr>s_final := Some (assemble_final L now s1)\<rparr>))))
      else if ty = PStr ''usage'' then
        (case get event ''usage'' of
           PDict usg \<Rightarrow> (Inr event, (h(s_usage s := merge_usage usg (h (s_usage s))), s))
         | _ \<Rightarrow> (Inr event, (h, s)))
      else if ty = PStr ''error'' then
        (let err = get event ''error'';
             s1 = s\<lparr>s_error_message :=
                      Some (if err \<noteq> PNone then py_str L err else ''unknown error''),
                    s_stop_reason := Some ''error''\<rparr>
         in (Inr event, (h, s1\<lparr>s_final := Some (assemble_final L now s1)\<rparr>)))
      else (Inr event, (h, s)))"

text \<open>
  A consumer iterating over the events \<open>tevs\<close>, each paired with the clock reading at
  which it is processed. A raising step leaves the stream as it was, and the consumer may
  go on iterating.
\<close>

fun feed :: "lib \<Rightarrow> (int \<times> dict) list \<Rightarrow> heap \<times> stream \<Rightarrow> heap \<times> stream" where
  "feed L [] hs = hs"
| "feed L (te # tevs) hs = feed L tevs (snd (anext L (fst te) (snd te) hs))"


subsection \<open>What a stream has received\<close>

text \<open>
  The deltas of an event sequence that address tool-call index \<open>i\<close> (those that pass the
  guard of line 72), and the non-empty strings they carry in one field, in arrival order.
\<close>

definition is_delta_for :: "int \<Rightarrow> dict \<Rightarrow> bool" where
  "is_delta_for i e =
     (get e ''type'' = PStr ''toolcall_delta'' \<and> is_int (get e ''index'')
      \<and> int_val (get e ''index'') = i)"

definition received :: "string \<Rightarrow> int \<Rightarrow> dict list \<Rightarrow> string list" where
  "received field i evs =
     List.map_filter (\<lambda>e. nonempty_str (get e field)) (filter (is_delta_for i) evs)"

text \<open>The last element of a list of strings, or a default when there is none.\<close>

definition last_or :: "string \<Rightarrow> string list \<Rightarrow> string" where
  "last_or d xs = (if xs = [] then d else last xs)"

text \<open>The integer keys of the accumulators, in dictionary order.\<close>

definition call_keys :: "tool_calls \<Rightarrow> int list" where
  "call_keys tcs = map (\<lambda>kc. int_val (fst kc)) tcs"

text \<open>
  What one event does to the entry of index \<open>i\<close>, seen on its own: a delta for \<open>i\<close>
  creates the entry if it is missing and applies its fields, any other event leaves it.
\<close>

definition acc_step :: "int \<Rightarrow> dict \<Rightarrow> (pyval \<times> call) option \<Rightarrow> (pyval \<times> call) option" where
  "acc_step i e kc =
     (if is_delta_for i e
      then Some (case kc of
                   None \<Rightarrow> (get e ''index'', apply_delta e new_call)
                 | Some kc' \<Rightarrow> (fst kc', apply_delta e (snd kc')))
      else kc)"

text \<open>The stream a consumer holds after iterating over \<open>tevs\<close> from a new stream.\<close>

abbreviation after :: "lib \<Rightarrow> (int \<times> dict) list \<Rightarrow> model \<Rightarrow> addr \<Rightarrow> heap \<Rightarrow> stream" where
  "after L tevs mdl a h \<equiv> snd (feed L tevs (init mdl a h))"





section \<open>The OpenAI-compatible adapter (providers/openai_compat.py)\<close>












section \<open>Example values\<close>

text \<open>
  A model, a store and events as the tests build them, and a stand-in for \<open>json.loads\<close>
  that knows two documents and rejects everything else.
\<close>

definition lib0 :: lib where
  "lib0 = \<lparr>json_loads = (\<lambda>x. if x = ''{}'' then Some (PDict [])
                               else if x = ''[1]'' then Some (PList [PInt 1]) else None),
           str_other = (\<lambda>v. ''?'')\<rparr>"

definition model0 :: model where
  "model0 = \<lparr>api = ''mock'', provider = ''local'', model = ''x''\<rparr>"

definition heap0 :: heap where
  "heap0 = (\<lambda>a. zero_usage)"

definition delta_event :: "int \<Rightarrow> string \<Rightarrow> string \<Rightarrow> string \<Rightarrow> dict" where
  "delta_event i tool_call_id name args =
     [(''type'', PStr ''toolcall_delta''), (''index'', PInt i), (''id'', PStr tool_call_id),
      (''name'', PStr name), (''arguments_delta'', PStr args)]"

definition done_event :: "string \<Rightarrow> dict" where
  "done_event reason = [(''type'', PStr ''done''), (''reason'', PStr reason)]"

definition text_event :: "string \<Rightarrow> dict" where
  "text_event d = [(''type'', PStr ''text_delta''), (''delta'', PStr d)]"



section \<open>Properties of the registry\<close>

lemma register_all_keeps:
  "providers a = Some p \<Longrightarrow> register_all calls providers a = Some p"
proof (induction calls arbitrary: providers)
  case Nil
  then show ?case by simp
next
  case (Cons c calls)
  obtain b q where c: "c = (b, q)" by (cases c)
  have "snd (register_api_provider b q providers) a = Some p"
    using Cons.prems by (auto simp: register_api_provider_def)
  then show ?case using Cons.IH c by simp
qed

text \<open>
  C9. Registering under an API identifier that is already registered raises and leaves
  the registry as it was; registering under a new identifier succeeds and stores the
  provider; and through any further sequence of registration calls the provider stored
  for an identifier stays the one registered first, so an identifier never holds a second
  provider.
\<close>

theorem C9_register_once:
  "(providers a = Some p \<longrightarrow>
      register_api_provider a q providers =
        (Inl (ValueError (''Provider already registered for api: '' @ a)), providers))
   \<and> (providers a = None \<longrightarrow>
      register_api_provider a q providers = (Inr (), providers(a \<mapsto> q)))
   \<and> (providers a = Some p \<longrightarrow> get_api_provider (register_all calls providers) a = Some p)"
  by (auto simp: register_api_provider_def get_api_provider_def register_all_keeps)

theorem C9_register_once_witness:
  "register_api_provider ''mock'' (2::nat) [''mock'' \<mapsto> 1] =
     (Inl (ValueError ''Provider already registered for api: mock''), [''mock'' \<mapsto> 1])
   \<and> register_api_provider ''mock'' (2::nat) Map.empty = (Inr (), [''mock'' \<mapsto> 2])
   \<and> get_api_provider
        (register_all [(''mock'', 2), (''openai'', 3), (''mock'', 4)] [''mock'' \<mapsto> (1::nat)])
        ''mock'' = Some 1"
  using C9_register_once [of "[''mock'' \<mapsto> (1::nat)]" "''mock''" 1 2
      "[(''mock'', 2), (''openai'', 3), (''mock'', 4)]"]
    C9_register_once [of "Map.empty :: nat registry" "''mock''" 1 2 "[]"]
  by (simp del: register_all.simps)

section \<open>Properties of finalization\<close>

lemma assemble_final_content:
  "m_content (assemble_final L now s) =
     (if s_text s \<noteq> [] then [TextContent (s_text s)] else [])
     @ map (\<lambda>kc. toolcall_block L (fst kc) (snd kc)) (sorted_calls (s_tool_calls s))"
  by (simp add: assemble_final_def Let_def sorted_calls_def)

lemma assemble_final_stop_reason:
  "m_stop_reason (assemble_final L now s) =
     (let r = (case s_stop_reason s of
                 None \<Rightarrow> ''stop'' | Some r \<Rightarrow> if r = [] then ''stop'' else r)
      in if s_tool_calls s \<noteq> [] \<and> r = ''stop'' then ''tool_use'' else r)"
  by (simp add: assemble_final_def Let_def)

lemma set_sorted_calls: "set (sorted_calls tcs) = set tcs"
  by (simp add: sorted_calls_def)

lemma toolcall_block_fields:
  "tc_id (toolcall_block L k c) =
     (if call_id c \<noteq> [] then call_id c else ''toolcall:'' @ format_index k)"
  "tc_name (toolcall_block L k c) = (if call_name c \<noteq> [] then call_name c else ''unknown'')"
  by (simp_all add: toolcall_block_def Let_def)

lemma toolcall_emitted_iff:
  "(\<exists>b \<in> set (m_content (assemble_final L now s)). \<exists>i n args. b = ToolCallContent i n args)
     \<longleftrightarrow> s_tool_calls s \<noteq> []"
proof -
  have "s_tool_calls s \<noteq> [] \<Longrightarrow> \<exists>kc. kc \<in> set (s_tool_calls s)"
    by (cases "s_tool_calls s") auto
  then show ?thesis
    by (auto simp: assemble_final_content set_sorted_calls toolcall_block_def Let_def)
qed

text \<open>
  C3. At finalization, if the content holds at least one tool-call block and the recorded
  stop reason is unset or \<open>stop\<close>, the message's stop reason is \<open>tool_use\<close>; a recorded
  \<open>length\<close>, \<open>error\<close> or \<open>aborted\<close> is the message's stop reason whether or not tool
  calls are present. The same holds of the message a \<open>done\<close> event caches: with an
  accumulator present, a reason \<open>stop\<close> or no reason gives \<open>tool_use\<close>, and a reason
  \<open>length\<close>, \<open>error\<close> or \<open>aborted\<close> is kept.
\<close>

theorem C3_stop_reason_upgrade:
  "((\<exists>b \<in> set (m_content (assemble_final L now s)). \<exists>i n args. b = ToolCallContent i n args)
      \<and> (s_stop_reason s = None \<or> s_stop_reason s = Some ''stop'')
      \<longrightarrow> m_stop_reason (assemble_final L now s) = ''tool_use'')
   \<and> (s_stop_reason s = Some r \<and> r \<in> {''length'', ''error'', ''aborted''}
      \<longrightarrow> m_stop_reason (assemble_final L now s) = r)
   \<and> (get e ''type'' = PStr ''done'' \<and> s_tool_calls s \<noteq> []
        \<and> (get e ''reason'' = PStr ''stop'' \<or> get e ''reason'' = PNone)
      \<longrightarrow> map_option m_stop_reason (s_final (snd (snd (anext L now e (h, s)))))
            = Some ''tool_use'')
   \<and> (get e ''type'' = PStr ''done'' \<and> get e ''reason'' = PStr r
        \<and> r \<in> {''length'', ''error'', ''aborted''}
      \<longrightarrow> map_option m_stop_reason (s_final (snd (snd (anext L now e (h, s))))) = Some r)"
proof -
  have 1: "(\<exists>b \<in> set (m_content (assemble_final L now s)).
              \<exists>i n args. b = ToolCallContent i n args)
      \<and> (s_stop_reason s = None \<or> s_stop_reason s = Some ''stop'')
      \<longrightarrow> m_stop_reason (assemble_final L now s) = ''tool_use''"
    unfolding toolcall_emitted_iff by (auto simp: assemble_final_stop_reason)
  have 2: "s_stop_reason s = Some r \<and> r \<in> {''length'', ''error'', ''aborted''}
      \<longrightarrow> m_stop_reason (assemble_final L now s) = r"
    by (auto simp: assemble_final_stop_reason)
  have 3: "get e ''type'' = PStr ''done'' \<and> s_tool_calls s \<noteq> []
        \<and> (get e ''reason'' = PStr ''stop'' \<or> get e ''reason'' = PNone)
      \<longrightarrow> map_option m_stop_reason (s_final (snd (snd (anext L now e (h, s)))))
            = Some ''tool_use''"
    by (auto simp: anext_def Let_def assemble_final_stop_reason stop_reasons_def)
  have 4: "get e ''type'' = PStr ''done'' \<and> get e ''reason'' = PStr r
        \<and> r \<in> {''length'', ''error'', ''aborted''}
      \<longrightarrow> map_option m_stop_reason (s_final (snd (snd (anext L now e (h, s))))) = Some r"
    by (auto simp: anext_def Let_def assemble_final_stop_reason stop_reasons_def)
  show ?thesis using 1 2 3 4 by blast
qed

theorem C3_stop_reason_upgrade_witness:
  "m_stop_reason (assemble_final lib0 5
      \<lparr>s_model = model0, s_text = [],
       s_tool_calls = [(PInt 0, \<lparr>call_id = ''c1'', call_name = ''add'', arguments_json = []\<rparr>)],
       s_usage = 0, s_final = None, s_stop_reason = Some ''stop'',
       s_error_message = None\<rparr>) = ''tool_use''
   \<and> m_stop_reason (assemble_final lib0 5
      \<lparr>s_model = model0, s_text = [],
       s_tool_calls = [(PInt 0, \<lparr>call_id = ''c1'', call_name = ''add'', arguments_json = []\<rparr>)],
       s_usage = 0, s_final = None, s_stop_reason = Some ''length'',
       s_error_message = None\<rparr>) = ''length''
   \<and> map_option m_stop_reason (s_final (snd (snd (anext lib0 5 (done_event ''stop'')
        (heap0,
         \<lparr>s_model = model0, s_text = [],
          s_tool_calls = [(PInt 0, \<lparr>call_id = ''c1'', call_name = ''add'',
                                    arguments_json = []\<rparr>)],
          s_usage = 0, s_final = None, s_stop_reason = None,
          s_error_message = None\<rparr>))))) = Some ''tool_use''
   \<and> map_option m_stop_reason (s_final (snd (snd (anext lib0 5 (done_event ''length'')
        (heap0,
         \<lparr>s_model = model0, s_text = [],
          s_tool_calls = [(PInt 0, \<lparr>call_id = ''c1'', call_name = ''add'',
                                    arguments_json = []\<rparr>)],
          s_usage = 0, s_final = None, s_stop_reason = None,
          s_error_message = None\<rparr>))))) = Some ''length''"
  using C3_stop_reason_upgrade [of lib0 5
      "\<lparr>s_model = model0, s_text = [],
        s_tool_calls = [(PInt 0, \<lparr>call_id = ''c1'', call_name = ''add'', arguments_json = []\<rparr>)],
        s_usage = 0, s_final = None, s_stop_reason = Some ''stop'',
        s_error_message = None\<rparr>" "''length''" "done_event ''stop''" heap0]
    C3_stop_reason_upgrade [of lib0 5
      "\<lparr>s_model = model0, s_text = [],
        s_tool_calls = [(PInt 0, \<lparr>call_id = ''c1'', call_name = ''add'', arguments_json = []\<rparr>)],
        s_usage = 0, s_final = None, s_stop_reason = Some ''length'',
        s_error_message = None\<rparr>" "''length''" "done_event ''stop''" heap0]
    C3_stop_reason_upgrade [of lib0 5
      "\<lparr>s_model = model0, s_text = [],
        s_tool_calls = [(PInt 0, \<lparr>call_id = ''c1'', call_name = ''add'', arguments_json = []\<rparr>)],
        s_usage = 0, s_final = None, s_stop_reason = None,
        s_error_message = None\<rparr>" "''length''" "done_event ''stop''" heap0]
    C3_stop_reason_upgrade [of lib0 5
      "\<lparr>s_model = model0, s_text = [],
        s_tool_calls = [(PInt 0, \<lparr>call_id = ''c1'', call_name = ''add'', arguments_json = []\<rparr>)],
        s_usage = 0, s_final = None, s_stop_reason = None,
        s_error_message = None\<rparr>" "''length''" "done_event ''length''" heap0]
  by (simp add: assemble_final_content sorted_calls_def toolcall_block_def blank_def
        done_event_def get_def)



section \<open>Properties of one step\<close>

text \<open>
  C10. A \<open>toolcall_delta\<close> event whose index is missing or is not an \<open>int\<close> (by the
  \<open>isinstance\<close> test of line 72) is returned as it came, and the store and the stream
  (accumulators, text buffer, usage, stop reason, cached message) are exactly what they
  were.
\<close>

theorem C10_bad_index_ignored:
  "get event ''type'' = PStr ''toolcall_delta'' \<Longrightarrow> \<not> is_int (get event ''index'')
   \<Longrightarrow> anext L now event (h, s) = (Inr event, (h, s))"
  by (simp add: anext_def)

theorem C10_bad_index_ignored_witness:
  "get [(''type'', PStr ''toolcall_delta''), (''index'', PStr ''0''), (''id'', PStr ''c1'')]
       ''type'' = PStr ''toolcall_delta''
   \<and> \<not> is_int (get [(''type'', PStr ''toolcall_delta''), (''index'', PStr ''0''),
                     (''id'', PStr ''c1'')] ''index'')
   \<and> anext lib0 5
        [(''type'', PStr ''toolcall_delta''), (''index'', PStr ''0''), (''id'', PStr ''c1'')]
        (init model0 0 heap0)
      = (Inr [(''type'', PStr ''toolcall_delta''), (''index'', PStr ''0''),
              (''id'', PStr ''c1'')],
         init model0 0 heap0)
   \<and> anext lib0 5 [(''type'', PStr ''toolcall_delta''), (''id'', PStr ''c1'')]
        (init model0 0 heap0)
      = (Inr [(''type'', PStr ''toolcall_delta''), (''id'', PStr ''c1'')], init model0 0 heap0)"
proof -
  have 1: "get [(''type'', PStr ''toolcall_delta''), (''index'', PStr ''0''),
                (''id'', PStr ''c1'')] ''type'' = PStr ''toolcall_delta''"
    by (simp add: get_def)
  have 2: "\<not> is_int (get [(''type'', PStr ''toolcall_delta''), (''index'', PStr ''0''),
                          (''id'', PStr ''c1'')] ''index'')"
    by (simp add: get_def)
  have 3: "get [(''type'', PStr ''toolcall_delta''), (''id'', PStr ''c1'')] ''type''
             = PStr ''toolcall_delta''"
    by (simp add: get_def)
  have 4: "\<not> is_int (get [(''type'', PStr ''toolcall_delta''), (''id'', PStr ''c1'')] ''index'')"
    by (simp add: get_def)
  show ?thesis
    using 1 2
      C10_bad_index_ignored [OF 1 2, of lib0 5 "fst (init model0 0 heap0)"
        "snd (init model0 0 heap0)"]
      C10_bad_index_ignored [OF 3 4, of lib0 5 "fst (init model0 0 heap0)"
        "snd (init model0 0 heap0)"]
    by simp
qed










text \<open>
  C6 at the input \<open>{"type": "error", "error": ""}\<close>, first event of a new stream: the
  message cached has stop reason \<open>error\<close> and carries no error description at all.
\<close>

theorem C6_empty_error_payload:
  "s_final (snd (snd (anext L now [(''type'', PStr ''error''), (''error'', PStr [])]
                        (init mdl a h))))
     = Some \<lparr>m_role = ''assistant'', m_content = [], m_api = api mdl, m_provider = provider mdl,
             m_model = model mdl, m_usage = a, m_stop_reason = ''error'', m_timestamp = now,
             m_error_message = None\<rparr>"
  by (simp add: init_def anext_def get_def Let_def assemble_final_def py_str_def sorted_calls_def)

section \<open>Properties of the tool-call accumulators\<close>

lemma call_keys_simps [simp]:
  "call_keys [] = []"
  "call_keys (kc # tcs) = int_val (fst kc) # call_keys tcs"
  "call_keys (tcs @ tcs') = call_keys tcs @ call_keys tcs'"
  by (simp_all add: call_keys_def)

lemma find_call_append:
  "find_call (tcs @ [(k, c)]) i =
     (case find_call tcs i of
        Some kc \<Rightarrow> Some kc
      | None \<Rightarrow> if int_val k = i then Some (k, c) else None)"
  by (induction tcs) auto

lemma find_call_update:
  "find_call (update_call j f tcs) i =
     (if i = j then map_option (\<lambda>kc. (fst kc, f (snd kc))) (find_call tcs i)
      else find_call tcs i)"
  by (induction tcs) auto

lemma find_call_None_iff: "find_call tcs i = None \<longleftrightarrow> i \<notin> set (call_keys tcs)"
proof (induction tcs)
  case Nil
  then show ?case by simp
next
  case (Cons kc tcs)
  obtain k c where kc: "kc = (k, c)" by (cases kc)
  show ?case using Cons.IH by (simp add: kc)
qed

lemma find_call_Some_key:
  "find_call tcs i = Some kc \<Longrightarrow> int_val (fst kc) = i \<and> kc \<in> set tcs"
  by (induction tcs) (auto split: if_splits)

lemma find_call_distinct:
  "distinct (call_keys tcs) \<Longrightarrow> kc \<in> set tcs \<Longrightarrow> find_call tcs (int_val (fst kc)) = Some kc"
proof (induction tcs)
  case Nil
  then show ?case by simp
next
  case (Cons x tcs)
  obtain k c where x: "x = (k, c)" by (cases x)
  show ?case
  proof (cases "kc = x")
    case True
    then show ?thesis by (simp add: x)
  next
    case False
    then have mem: "kc \<in> set tcs" using Cons.prems by simp
    then have "int_val (fst kc) \<in> set (call_keys tcs)" by (auto simp: call_keys_def)
    then have "int_val k \<noteq> int_val (fst kc)" using Cons.prems(1) by (auto simp: x)
    then show ?thesis using Cons.IH mem Cons.prems(1) by (simp add: x)
  qed
qed

lemma keys_update_call: "call_keys (update_call j f tcs) = call_keys tcs"
  by (induction tcs) auto

lemma keys_toolcall_delta:
  "call_keys (toolcall_delta e tcs) =
     (if int_val (get e ''index'') \<in> set (call_keys tcs) then call_keys tcs
      else call_keys tcs @ [int_val (get e ''index'')])"
  by (auto simp: toolcall_delta_def Let_def keys_update_call find_call_None_iff [symmetric]
           split: option.splits)

lemma find_call_toolcall_delta:
  "find_call (toolcall_delta e tcs) i =
     (if int_val (get e ''index'') = i
      then Some (case find_call tcs i of
                   None \<Rightarrow> (get e ''index'', apply_delta e new_call)
                 | Some kc \<Rightarrow> (fst kc, apply_delta e (snd kc)))
      else find_call tcs i)"
  by (auto simp: toolcall_delta_def Let_def find_call_update find_call_append
           split: option.splits)

lemma tool_calls_anext:
  "s_tool_calls (snd (snd (anext L now e (h, s)))) =
     (if get e ''type'' = PStr ''toolcall_delta'' \<and> is_int (get e ''index'')
      then toolcall_delta e (s_tool_calls s) else s_tool_calls s)"
  by (auto simp: anext_def Let_def split: pyval.splits)

lemma find_call_anext:
  "find_call (s_tool_calls (snd (snd (anext L now e (h, s))))) i =
     acc_step i e (find_call (s_tool_calls s) i)"
  by (auto simp: tool_calls_anext find_call_toolcall_delta acc_step_def is_delta_for_def
           split: option.splits)

lemma find_call_feed:
  "find_call (s_tool_calls (snd (feed L tevs hs))) i =
     fold (acc_step i) (map snd tevs) (find_call (s_tool_calls (snd hs)) i)"
proof (induction tevs arbitrary: hs)
  case Nil
  then show ?case by simp
next
  case (Cons te tevs)
  obtain h s where hs: "hs = (h, s)" by (cases hs)
  show ?case using Cons.IH [of "snd (anext L (fst te) (snd te) hs)"]
    by (simp add: hs find_call_anext)
qed

lemma keys_anext:
  "set (call_keys (s_tool_calls (snd (snd (anext L now e (h, s)))))) =
     set (call_keys (s_tool_calls s)) \<union> {i. is_delta_for i e}"
  by (auto simp: tool_calls_anext keys_toolcall_delta is_delta_for_def)

lemma distinct_anext:
  "distinct (call_keys (s_tool_calls s)) \<Longrightarrow>
   distinct (call_keys (s_tool_calls (snd (snd (anext L now e (h, s))))))"
  by (auto simp: tool_calls_anext keys_toolcall_delta)

lemma keys_feed:
  "set (call_keys (s_tool_calls (snd (feed L tevs hs)))) =
     set (call_keys (s_tool_calls (snd hs)))
     \<union> {i. \<exists>e \<in> set (map snd tevs). is_delta_for i e}"
proof (induction tevs arbitrary: hs)
  case Nil
  then show ?case by simp
next
  case (Cons te tevs)
  obtain h s where hs: "hs = (h, s)" by (cases hs)
  show ?case
    using Cons.IH [of "snd (anext L (fst te) (snd te) hs)"]
      keys_anext [of L "fst te" "snd te" h s]
    by (auto simp: hs)
qed

lemma distinct_feed:
  "distinct (call_keys (s_tool_calls (snd hs))) \<Longrightarrow>
   distinct (call_keys (s_tool_calls (snd (feed L tevs hs))))"
proof (induction tevs arbitrary: hs)
  case Nil
  then show ?case by simp
next
  case (Cons te tevs)
  obtain h s where hs: "hs = (h, s)" by (cases hs)
  show ?case
    using Cons.IH [of "snd (anext L (fst te) (snd te) hs)"]
      distinct_anext [of s L "fst te" "snd te" h] Cons.prems
    by (auto simp: hs)
qed

lemma distinct_map_sort_key: "distinct (map f (sort_key f xs)) = distinct (map f xs)"
  by (induction xs) (simp_all add: distinct_insort_key)

lemma call_keys_sorted_calls:
  "sorted (call_keys (sorted_calls tcs))"
  "set (call_keys (sorted_calls tcs)) = set (call_keys tcs)"
  "distinct (call_keys (sorted_calls tcs)) = distinct (call_keys tcs)"
  unfolding call_keys_def sorted_calls_def
  by (simp_all add: distinct_map_sort_key)

lemma keys_init: "call_keys (s_tool_calls (snd (init mdl a h))) = []"
  by (simp add: init_def)

lemma find_call_init: "find_call (s_tool_calls (snd (init mdl a h))) i = None"
  by (simp add: init_def)

lemma apply_delta_fields:
  "call_id (apply_delta e c) =
     (case nonempty_str (get e ''id'') of Some v \<Rightarrow> v | None \<Rightarrow> call_id c)"
  "call_name (apply_delta e c) =
     (case nonempty_str (get e ''name'') of Some v \<Rightarrow> v | None \<Rightarrow> call_name c)"
  "arguments_json (apply_delta e c) =
     arguments_json c
     @ (case nonempty_str (get e ''arguments_delta'') of Some v \<Rightarrow> v | None \<Rightarrow> [])"
  by (simp_all add: apply_delta_def Let_def split: option.splits)

lemma received_snoc:
  "received field i (evs @ [e]) =
     received field i evs
     @ (if is_delta_for i e
        then (case nonempty_str (get e field) of Some v \<Rightarrow> [v] | None \<Rightarrow> [])
        else [])"
  by (simp add: received_def List.map_filter_def split: option.splits)

lemma acc_step_simps:
  "\<not> is_delta_for i e \<Longrightarrow> acc_step i e kc = kc"
  "is_delta_for i e \<Longrightarrow> acc_step i e None = Some (get e ''index'', apply_delta e new_call)"
  "is_delta_for i e \<Longrightarrow> acc_step i e (Some (k, c)) = Some (k, apply_delta e c)"
  by (simp_all add: acc_step_def)

lemma fold_acc_step:
  "(filter (is_delta_for i) evs = [] \<longrightarrow> fold (acc_step i) evs None = None)
   \<and> (filter (is_delta_for i) evs \<noteq> [] \<longrightarrow>
        (\<exists>k c. fold (acc_step i) evs None = Some (k, c)
           \<and> call_id c = last_or [] (received ''id'' i evs)
           \<and> call_name c = last_or [] (received ''name'' i evs)
           \<and> arguments_json c = concat (received ''arguments_delta'' i evs)))"
proof (induction evs rule: rev_induct)
  case Nil
  then show ?case by simp
next
  case (snoc e evs)
  show ?case
  proof (cases "is_delta_for i e")
    case False
    then show ?thesis using snoc.IH by (simp add: acc_step_simps received_snoc)
  next
    case True
    show ?thesis
    proof (cases "filter (is_delta_for i) evs = []")
      case True
      then have "received ''id'' i evs = []" "received ''name'' i evs = []"
        "received ''arguments_delta'' i evs = []"
        by (simp_all add: received_def List.map_filter_def)
      then show ?thesis using snoc.IH True \<open>is_delta_for i e\<close>
        by (simp add: acc_step_simps received_snoc apply_delta_fields new_call_def last_or_def
                 split: option.splits)
    next
      case False
      then obtain k c where kc: "fold (acc_step i) evs None = Some (k, c)"
        "call_id c = last_or [] (received ''id'' i evs)"
        "call_name c = last_or [] (received ''name'' i evs)"
        "arguments_json c = concat (received ''arguments_delta'' i evs)"
        using snoc.IH by blast
      then show ?thesis using \<open>is_delta_for i e\<close>
        by (simp add: acc_step_simps received_snoc apply_delta_fields last_or_def
                 split: option.splits)
    qed
  qed
qed

lemma nonempty_str_nonempty: "nonempty_str v = Some s \<Longrightarrow> s \<noteq> []"
  by (cases v) (auto split: if_splits)

lemma received_nonempty: "s \<in> set (received field i evs) \<Longrightarrow> s \<noteq> []"
  by (auto simp: received_def List.map_filter_def dest: nonempty_str_nonempty)

lemma last_or_received:
  "last_or [] (received field i evs) = [] \<longleftrightarrow> received field i evs = []"
proof
  assume a: "last_or [] (received field i evs) = []"
  show "received field i evs = []"
  proof (rule ccontr)
    assume n: "received field i evs \<noteq> []"
    then have "last (received field i evs) \<in> set (received field i evs)" by simp
    then have "last (received field i evs) \<noteq> []" by (rule received_nonempty)
    then show False using a n by (simp add: last_or_def)
  qed
next
  assume "received field i evs = []"
  then show "last_or [] (received field i evs) = []" by (simp add: last_or_def)
qed

lemma sorted_keys_after:
  "sorted (call_keys (sorted_calls (s_tool_calls (after L tevs mdl a h))))
   \<and> distinct (call_keys (sorted_calls (s_tool_calls (after L tevs mdl a h))))
   \<and> set (call_keys (sorted_calls (s_tool_calls (after L tevs mdl a h)))) =
       {i. \<exists>e \<in> set (map snd tevs). is_delta_for i e}"
proof -
  have d: "distinct (call_keys (s_tool_calls (after L tevs mdl a h)))"
    by (rule distinct_feed) (simp add: keys_init)
  have "set (call_keys (sorted_calls (s_tool_calls (after L tevs mdl a h)))) =
       {i. \<exists>e \<in> set (map snd tevs). is_delta_for i e}"
    by (simp only: call_keys_sorted_calls keys_feed keys_init) simp
  then show ?thesis using d by (simp add: call_keys_sorted_calls)
qed

text \<open>
  C1, as stated, fails: two deltas for index 0 carry the ids \<open>call_a\<close> then \<open>call_b\<close> and
  the names \<open>add\<close> then \<open>mul\<close>; the first non-empty values are \<open>call_a\<close> and \<open>add\<close>, and
  the tool-call block of the message carries \<open>call_b\<close> and \<open>mul\<close>.
\<close>

theorem C1_later_value_overwrites:
  "received ''id'' 0 [delta_event 0 ''call_a'' ''add'' [], delta_event 0 ''call_b'' ''mul'' []]
     = [''call_a'', ''call_b'']
   \<and> received ''name'' 0 [delta_event 0 ''call_a'' ''add'' [], delta_event 0 ''call_b'' ''mul'' []]
     = [''add'', ''mul'']
   \<and> m_content (assemble_final lib0 3
        (after lib0 [(1, delta_event 0 ''call_a'' ''add'' []),
                     (2, delta_event 0 ''call_b'' ''mul'' [])] model0 0 heap0))
     = [ToolCallContent ''call_b'' ''mul'' []]"
  by (simp add: received_def List.map_filter_def is_delta_for_def delta_event_def get_def
        init_def anext_def Let_def toolcall_delta_def apply_delta_def new_call_def
        assemble_final_def sorted_calls_def toolcall_block_def blank_def)

text \<open>
  C1, amended. For every stream and every tool-call index, the id (respectively the name)
  of the final tool-call block is the last non-empty string received in that field by a
  \<open>toolcall_delta\<close> event for the index: a later non-empty value overwrites an earlier
  one, and an empty, missing or non-string value overwrites nothing. With no such value
  received the block carries the fallback. An index that received no delta has no
  accumulator.
\<close>

theorem C1_last_nonempty_wins:
  "(filter (is_delta_for i) (map snd tevs) = [] \<longrightarrow>
      find_call (s_tool_calls (after L tevs mdl a h)) i = None)
   \<and> (filter (is_delta_for i) (map snd tevs) \<noteq> [] \<longrightarrow>
      (\<exists>k c. find_call (s_tool_calls (after L tevs mdl a h)) i = Some (k, c)
         \<and> toolcall_block L k c
             \<in> set (m_content (assemble_final L now (after L tevs mdl a h)))
         \<and> tc_id (toolcall_block L k c) =
             last_or (''toolcall:'' @ format_index k) (received ''id'' i (map snd tevs))
         \<and> tc_name (toolcall_block L k c) =
             last_or ''unknown'' (received ''name'' i (map snd tevs))))"
proof -
  let ?s = "after L tevs mdl a h"
  have f: "find_call (s_tool_calls ?s) i = fold (acc_step i) (map snd tevs) None"
    by (simp add: find_call_feed find_call_init)
  note A = fold_acc_step [of i "map snd tevs"]
  show ?thesis
  proof (cases "filter (is_delta_for i) (map snd tevs) = []")
    case True
    then show ?thesis using A f by simp
  next
    case False
    then obtain k c where kc: "fold (acc_step i) (map snd tevs) None = Some (k, c)"
        "call_id c = last_or [] (received ''id'' i (map snd tevs))"
        "call_name c = last_or [] (received ''name'' i (map snd tevs))"
      using A by blast
    have mem: "(k, c) \<in> set (s_tool_calls ?s)"
      using find_call_Some_key [of "s_tool_calls ?s" i "(k, c)"] f kc(1) by simp
    have 1: "toolcall_block L k c \<in> set (m_content (assemble_final L now ?s))"
      using mem by (force simp: assemble_final_content set_sorted_calls)
    have 2: "tc_id (toolcall_block L k c) =
             last_or (''toolcall:'' @ format_index k) (received ''id'' i (map snd tevs))"
      using kc(2) last_or_received [of "''id''" i "map snd tevs"]
      by (auto simp: toolcall_block_fields last_or_def)
    have 3: "tc_name (toolcall_block L k c) =
             last_or ''unknown'' (received ''name'' i (map snd tevs))"
      using kc(3) last_or_received [of "''name''" i "map snd tevs"]
      by (auto simp: toolcall_block_fields last_or_def)
    show ?thesis using False f kc(1) 1 2 3 by simp
  qed
qed

theorem C1_last_nonempty_wins_witness:
  "find_call (s_tool_calls (after lib0 [(1, delta_event 0 ''call_a'' ''add'' []),
                                        (2, delta_event 0 ''call_b'' ''mul'' [])]
                              model0 0 heap0)) 5 = None
   \<and> (\<exists>k c. find_call (s_tool_calls (after lib0 [(1, delta_event 0 ''call_a'' ''add'' []),
                                                 (2, delta_event 0 ''call_b'' ''mul'' [])]
                                       model0 0 heap0)) 0 = Some (k, c)
         \<and> toolcall_block lib0 k c
             \<in> set (m_content (assemble_final lib0 3
                    (after lib0 [(1, delta_event 0 ''call_a'' ''add'' []),
                                 (2, delta_event 0 ''call_b'' ''mul'' [])] model0 0 heap0)))
         \<and> tc_id (toolcall_block lib0 k c) = ''call_b''
         \<and> tc_name (toolcall_block lib0 k c) = ''mul'')"
  using C1_last_nonempty_wins [of 5 "[(1, delta_event 0 ''call_a'' ''add'' []),
                                     (2, delta_event 0 ''call_b'' ''mul'' [])]"
                                 lib0 model0 0 heap0 3]
    C1_last_nonempty_wins [of 0 "[(1, delta_event 0 ''call_a'' ''add'' []),
                                     (2, delta_event 0 ''call_b'' ''mul'' [])]"
                                 lib0 model0 0 heap0 3]
  by (simp add: received_def List.map_filter_def is_delta_for_def delta_event_def get_def
        last_or_def)

text \<open>
  C8. For every stream, the content of the message is the optional text block followed
  by one tool-call block per accumulator, taken in strictly ascending order of the
  indices; those indices are exactly the ones addressed by some \<open>toolcall_delta\<close> event,
  each block is built from the accumulator of its index, and the order of the indices
  is the same for any other sequence made of the same events, whatever their arrival
  order.
\<close>

theorem C8_ascending_index_order:
  "m_content (assemble_final L now (after L tevs mdl a h)) =
     (if s_text (after L tevs mdl a h) \<noteq> []
      then [TextContent (s_text (after L tevs mdl a h))] else [])
     @ map (\<lambda>kc. toolcall_block L (fst kc) (snd kc))
           (sorted_calls (s_tool_calls (after L tevs mdl a h)))
   \<and> sorted_wrt (<) (call_keys (sorted_calls (s_tool_calls (after L tevs mdl a h))))
   \<and> set (call_keys (sorted_calls (s_tool_calls (after L tevs mdl a h)))) =
       {i. \<exists>e \<in> set (map snd tevs). is_delta_for i e}
   \<and> (\<forall>kc \<in> set (sorted_calls (s_tool_calls (after L tevs mdl a h))).
         find_call (s_tool_calls (after L tevs mdl a h)) (int_val (fst kc)) = Some kc)
   \<and> (set (map snd tevs') = set (map snd tevs) \<longrightarrow>
        call_keys (sorted_calls (s_tool_calls (after L tevs' mdl a h))) =
        call_keys (sorted_calls (s_tool_calls (after L tevs mdl a h))))"
proof -
  let ?s = "after L tevs mdl a h"
  have d: "distinct (call_keys (s_tool_calls ?s))"
    by (rule distinct_feed) (simp add: keys_init)
  note K = sorted_keys_after [of L tevs mdl a h]
  note K' = sorted_keys_after [of L tevs' mdl a h]
  have 1: "m_content (assemble_final L now ?s) =
     (if s_text ?s \<noteq> [] then [TextContent (s_text ?s)] else [])
     @ map (\<lambda>kc. toolcall_block L (fst kc) (snd kc)) (sorted_calls (s_tool_calls ?s))"
    by (rule assemble_final_content)
  have 2: "sorted_wrt (<) (call_keys (sorted_calls (s_tool_calls ?s)))"
    using K by (simp add: strict_sorted_iff)
  have 3: "set (call_keys (sorted_calls (s_tool_calls ?s))) =
       {i. \<exists>e \<in> set (map snd tevs). is_delta_for i e}"
    using K by blast
  have 4: "\<forall>kc \<in> set (sorted_calls (s_tool_calls ?s)).
         find_call (s_tool_calls ?s) (int_val (fst kc)) = Some kc"
    using d by (auto simp: set_sorted_calls intro: find_call_distinct)
  have 5: "set (map snd tevs') = set (map snd tevs) \<longrightarrow>
        call_keys (sorted_calls (s_tool_calls (after L tevs' mdl a h))) =
        call_keys (sorted_calls (s_tool_calls ?s))"
  proof
    assume eq: "set (map snd tevs') = set (map snd tevs)"
    have "{i. \<exists>e \<in> set (map snd tevs'). is_delta_for i e} =
          {i. \<exists>e \<in> set (map snd tevs). is_delta_for i e}"
      by (simp only: eq)
    then have "set (call_keys (sorted_calls (s_tool_calls (after L tevs' mdl a h)))) =
          set (call_keys (sorted_calls (s_tool_calls ?s)))"
      using K K' by blast
    then show "call_keys (sorted_calls (s_tool_calls (after L tevs' mdl a h))) =
        call_keys (sorted_calls (s_tool_calls ?s))"
      using K K' by (blast intro: sorted_distinct_set_unique)
  qed
  show ?thesis using 1 2 3 4 5 by blast
qed

theorem C8_ascending_index_order_witness:
  "m_content (assemble_final lib0 9
      (after lib0 [(1, delta_event 1 ''call_b'' ''mul'' []), (2, text_event ''ok''),
                   (3, delta_event 0 ''call_a'' ''add'' []),
                   (4, delta_event 1 [] [] ''{}'')] model0 0 heap0))
     = [TextContent ''ok'', ToolCallContent ''call_a'' ''add'' [],
        ToolCallContent ''call_b'' ''mul'' []]
   \<and> call_keys (sorted_calls (s_tool_calls
        (after lib0 [(1, delta_event 1 ''call_b'' ''mul'' []), (2, text_event ''ok''),
                     (3, delta_event 0 ''call_a'' ''add'' []),
                     (4, delta_event 1 [] [] ''{}'')] model0 0 heap0))) = [0, 1]
   \<and> call_keys (sorted_calls (s_tool_calls
        (after lib0 [(1, delta_event 0 ''call_a'' ''add'' []),
                     (2, delta_event 1 [] [] ''{}''), (3, text_event ''ok''),
                     (4, delta_event 1 ''call_b'' ''mul'' [])] model0 0 heap0))) = [0, 1]"
  using C8_ascending_index_order [of lib0 9
      "[(1, delta_event 1 ''call_b'' ''mul'' []), (2, text_event ''ok''),
        (3, delta_event 0 ''call_a'' ''add'' []), (4, delta_event 1 [] [] ''{}'')]"
      model0 0 heap0
      "[(1, delta_event 0 ''call_a'' ''add'' []), (2, delta_event 1 [] [] ''{}''),
        (3, text_event ''ok''), (4, delta_event 1 ''call_b'' ''mul'' [])]"]
  by (simp add: delta_event_def text_event_def get_def lib0_def
        init_def anext_def Let_def toolcall_delta_def apply_delta_def new_call_def
        assemble_final_def sorted_calls_def toolcall_block_def blank_def whitespace_def)

section \<open>Properties of the usage accumulator\<close>















section \<open>Properties of the adapter's cost fallback\<close>






end
